theory Spec2Isabelle
  imports
    Complex_Main
    "HOL-Library.Product_Lexorder"
    "HOL-Library.List_Lexorder"
    "HOL-Library.Char_ord"
    "HOL-Library.AList"
begin

section \<open>Numbers and rounding\<close>

text \<open>
  The module \<open>src/algorithm/bin_packer_v3.py\<close> computes on Python floats. Every finite
  float is a rational number, and the embedding takes coordinates, dimensions and weights
  as exact rationals: additions, products and comparisons are the exact ones. Python's
  \<open>round(v, n)\<close> rounds to \<open>n\<close> decimals, an exact tie going to the even neighbour.
\<close>

definition py_round :: "rat \<Rightarrow> nat \<Rightarrow> rat" where
  "py_round v n =
     (let s = v * 10 ^ n; f = \<lfloor>s\<rfloor>; d = s - of_int f
      in of_int (if d < 1 / 2 then f
                 else if 1 / 2 < d then f + 1
                 else if even f then f else f + 1) / 10 ^ n)"

section \<open>Data model\<close>

datatype Stackability = STACKABLE | SEMI_STACKABLE | UNSTACKABLE

text \<open>\<open>Stackability.value\<close>: the string of each enum member.\<close>

fun stackability_value :: "Stackability \<Rightarrow> string" where
  "stackability_value STACKABLE = ''stackable''"
| "stackability_value SEMI_STACKABLE = ''semi_stackable''"
| "stackability_value UNSTACKABLE = ''unstackable''"

record Point3D =
  pt_x :: rat
  pt_y :: rat
  pt_z :: rat

text \<open>
  \<open>Point3D.__hash__\<close> and \<open>Point3D.__eq__\<close> both go through the coordinates rounded to three
  decimals; \<open>point_key\<close> is that triple, \<open>point_eq\<close> is \<open>__eq__\<close>.
\<close>

definition point_key :: "Point3D \<Rightarrow> rat \<times> rat \<times> rat" where
  "point_key p = (py_round (pt_x p) 3, py_round (pt_y p) 3, py_round (pt_z p) 3)"

definition point_eq :: "Point3D \<Rightarrow> Point3D \<Rightarrow> bool" where
  "point_eq p q \<longleftrightarrow>
     py_round (pt_x p) 3 = py_round (pt_x q) 3 \<and>
     py_round (pt_y p) 3 = py_round (pt_y q) 3 \<and>
     py_round (pt_z p) 3 = py_round (pt_z q) 3"

text \<open>\<open>point in points\<close> and \<open>points.remove(point)\<close> on a list of \<open>Point3D\<close> use \<open>__eq__\<close>.\<close>

definition point_in :: "Point3D \<Rightarrow> Point3D list \<Rightarrow> bool" where
  "point_in p ps = list_ex (\<lambda>q. point_eq q p) ps"

fun point_remove :: "Point3D \<Rightarrow> Point3D list \<Rightarrow> Point3D list" where
  "point_remove p [] = []"
| "point_remove p (q # qs) = (if point_eq q p then qs else q # point_remove p qs)"

record Item =
  item_id :: string
  item_length :: rat
  item_width :: rat
  item_height :: rat
  item_weight :: rat
  can_rotate :: bool
  destination :: string
  is_palletized :: bool
  stackability :: Stackability

definition volume :: "Item \<Rightarrow> rat" where
  "volume it = item_length it * item_width it * item_height it"

definition base_area :: "Item \<Rightarrow> rat" where
  "base_area it = item_length it * item_width it"

definition get_rotations :: "Item \<Rightarrow> (rat \<times> rat \<times> rat) list" where
  "get_rotations it =
     [(item_length it, item_width it, item_height it),
      (item_width it, item_length it, item_height it)]"

record PlacedItem =
  item :: Item
  position :: Point3D
  rotation :: "rat \<times> rat \<times> rat"

definition bounds :: "PlacedItem \<Rightarrow> Point3D \<times> Point3D" where
  "bounds pl =
     (case rotation pl of (l, w, h) \<Rightarrow>
        (position pl,
         \<lparr>pt_x = pt_x (position pl) + l,
          pt_y = pt_y (position pl) + w,
          pt_z = pt_z (position pl) + h\<rparr>))"

definition placed_volume :: "PlacedItem \<Rightarrow> rat" where
  "placed_volume pl = (case rotation pl of (l, w, h) \<Rightarrow> l * w * h)"

section \<open>PointManager\<close>

text \<open>
  \<open>point_priorities\<close> is a dict keyed by \<open>Point3D\<close>, that is by \<open>point_key\<close>; it is only
  ever read with \<open>get(p, 999)\<close> and written with \<open>[point] = priority\<close>.
\<close>

record PointManager =
  available_points :: "Point3D list"
  used_points :: "Point3D list"
  blocked_points :: "Point3D list"
  point_priorities :: "((rat \<times> rat \<times> rat) \<times> int) list"

definition PointManager_init :: PointManager where
  "PointManager_init =
     \<lparr>available_points = [], used_points = [], blocked_points = [], point_priorities = []\<rparr>"

definition add_point :: "PointManager \<Rightarrow> Point3D \<Rightarrow> int \<Rightarrow> PointManager" where
  "add_point pm p priority =
     (if \<not> point_in p (available_points pm) \<and> \<not> point_in p (used_points pm)
      then pm\<lparr>available_points := available_points pm @ [p],
              point_priorities := AList.update (point_key p) priority (point_priorities pm)\<rparr>
      else pm)"

text \<open>The sort key of \<open>get_next_point\<close>: x, then z, then y, each rounded to six decimals,
  then the recorded priority, 999 when the point has none.\<close>

definition scan_key :: "PointManager \<Rightarrow> Point3D \<Rightarrow> rat \<times> rat \<times> rat \<times> int" where
  "scan_key pm p =
     (py_round (pt_x p) 6, py_round (pt_z p) 6, py_round (pt_y p) 6,
      (case map_of (point_priorities pm) (point_key p) of None \<Rightarrow> 999 | Some v \<Rightarrow> v))"

text \<open>\<open>get_next_point\<close> sorts \<open>available_points\<close> in place (\<open>list.sort\<close> is stable, as
  \<open>sort_key\<close> is) and returns its first element; the sorted list stays in the manager.\<close>

definition get_next_point :: "PointManager \<Rightarrow> Point3D option \<times> PointManager" where
  "get_next_point pm =
     (if available_points pm = [] then (None, pm)
      else
        let sorted_points = sort_key (scan_key pm) (available_points pm)
        in (Some (hd sorted_points), pm\<lparr>available_points := sorted_points\<rparr>))"

definition mark_point_used :: "PointManager \<Rightarrow> Point3D \<Rightarrow> PointManager" where
  "mark_point_used pm p =
     (let pm1 = (if point_in p (available_points pm)
                 then pm\<lparr>available_points := point_remove p (available_points pm)\<rparr>
                 else pm)
      in pm1\<lparr>used_points := used_points pm1 @ [p]\<rparr>)"

definition mark_point_blocked :: "PointManager \<Rightarrow> Point3D \<Rightarrow> PointManager" where
  "mark_point_blocked pm p =
     (let pm1 = (if point_in p (available_points pm)
                 then pm\<lparr>available_points := point_remove p (available_points pm)\<rparr>
                 else pm)
      in pm1\<lparr>blocked_points := blocked_points pm1 @ [p]\<rparr>)"

definition generate_new_points :: "PointManager \<Rightarrow> PlacedItem \<Rightarrow> Point3D list" where
  "generate_new_points pm pl =
     (case rotation pl of (l, w, h) \<Rightarrow>
        let x = pt_x (position pl); y = pt_y (position pl); z = pt_z (position pl);
            candidates0 = [\<lparr>pt_x = x, pt_y = y + w, pt_z = z\<rparr>,
                           \<lparr>pt_x = x + l, pt_y = y, pt_z = z\<rparr>];
            candidates =
              (if stackability (item pl) = STACKABLE
               then take 1 candidates0 @ [\<lparr>pt_x = x, pt_y = y, pt_z = z + h\<rparr>] @ drop 1 candidates0
               else candidates0)
        in filter (\<lambda>p. \<not> point_in p (available_points pm) \<and>
                        \<not> point_in p (used_points pm) \<and>
                        \<not> point_in p (blocked_points pm)) candidates)"

section \<open>CollisionDetector\<close>

text \<open>
  The cache key is the f-string of item id, position coordinates and rotation; the printed
  form of a float determines the float, so the key is modelled by the tuple of these values.
\<close>

type_synonym cache_key = "string \<times> rat \<times> rat \<times> rat \<times> (rat \<times> rat \<times> rat)"

record CollisionDetector =
  cd_placed_items :: "PlacedItem list"
  collision_cache :: "(cache_key \<times> bool) list"

definition CollisionDetector_init :: CollisionDetector where
  "CollisionDetector_init = \<lparr>cd_placed_items = [], collision_cache = []\<rparr>"

definition cd_add_placed_item :: "CollisionDetector \<Rightarrow> PlacedItem \<Rightarrow> CollisionDetector" where
  "cd_add_placed_item cd pl =
     cd\<lparr>cd_placed_items := cd_placed_items cd @ [pl], collision_cache := []\<rparr>"

definition aabb_collision :: "Point3D \<times> Point3D \<Rightarrow> Point3D \<times> Point3D \<Rightarrow> bool" where
  "aabb_collision bounds1 bounds2 =
     (case bounds1 of (min1, max1) \<Rightarrow> case bounds2 of (min2, max2) \<Rightarrow>
        \<not> (pt_x max1 \<le> pt_x min2 \<or> pt_x min1 \<ge> pt_x max2 \<or>
           pt_y max1 \<le> pt_y min2 \<or> pt_y min1 \<ge> pt_y max2 \<or>
           pt_z max1 \<le> pt_z min2 \<or> pt_z min1 \<ge> pt_z max2))"

text \<open>\<open>check_collision\<close> answers from the cache when the key is there; otherwise it scans
  the placed items, stops at the first hit, and stores the answer under the key.\<close>

definition check_collision ::
  "CollisionDetector \<Rightarrow> Item \<Rightarrow> Point3D \<Rightarrow> rat \<times> rat \<times> rat \<Rightarrow> bool \<times> CollisionDetector" where
  "check_collision cd it pos rot =
     (let cache_key = (item_id it, pt_x pos, pt_y pos, pt_z pos, rot)
      in case map_of (collision_cache cd) cache_key of
           Some cached \<Rightarrow> (cached, cd)
         | None \<Rightarrow>
             let temp_bounds = bounds \<lparr>item = it, position = pos, rotation = rot\<rparr>;
                 hit = list_ex (\<lambda>pl. aabb_collision temp_bounds (bounds pl)) (cd_placed_items cd)
             in (hit, cd\<lparr>collision_cache := AList.update cache_key hit (collision_cache cd)\<rparr>))"

section \<open>SupportValidator\<close>

record SupportValidator =
  sv_placed_items :: "PlacedItem list"

definition SupportValidator_init :: SupportValidator where
  "SupportValidator_init = \<lparr>sv_placed_items = []\<rparr>"

definition sv_add_placed_item :: "SupportValidator \<Rightarrow> PlacedItem \<Rightarrow> SupportValidator" where
  "sv_add_placed_item sv pl = sv\<lparr>sv_placed_items := sv_placed_items sv @ [pl]\<rparr>"

definition get_support_surface :: "SupportValidator \<Rightarrow> rat \<Rightarrow> (Point3D \<times> Point3D) list" where
  "get_support_surface sv height =
     map (\<lambda>pl. case rotation pl of (l, w, h) \<Rightarrow>
            (position pl,
             \<lparr>pt_x = pt_x (position pl) + l,
              pt_y = pt_y (position pl) + w,
              pt_z = pt_z (position pl) + h\<rparr>))
       (filter (\<lambda>pl. case rotation pl of (l, w, h) \<Rightarrow> pt_z (position pl) + h = height)
          (sv_placed_items sv))"

definition calculate_intersection_area ::
  "Point3D \<times> Point3D \<Rightarrow> Point3D \<times> Point3D \<Rightarrow> rat" where
  "calculate_intersection_area item_bounds support_bounds =
     (case item_bounds of (item_min, item_max) \<Rightarrow>
      case support_bounds of (support_min, support_max) \<Rightarrow>
        let x_overlap = max 0 (min (pt_x item_max) (pt_x support_max)
                                 - max (pt_x item_min) (pt_x support_min));
            y_overlap = max 0 (min (pt_y item_max) (pt_y support_max)
                                 - max (pt_y item_min) (pt_y support_min))
        in x_overlap * y_overlap)"

definition calculate_support_percentage ::
  "Item \<Rightarrow> Point3D \<Rightarrow> rat \<times> rat \<times> rat \<Rightarrow> (Point3D \<times> Point3D) list \<Rightarrow> rat" where
  "calculate_support_percentage it pos rot support_surfaces =
     (case rot of (l, w, h) \<Rightarrow>
        let item_base_area = l * w;
            supported_area =
              foldl (\<lambda>acc surface.
                       acc + calculate_intersection_area
                               (pos, \<lparr>pt_x = pt_x pos + l, pt_y = pt_y pos + w, pt_z = pt_z pos\<rparr>)
                               surface)
                    0 support_surfaces
        in if item_base_area > 0 then (supported_area / item_base_area) * 100 else 0)"

definition validate_support ::
  "SupportValidator \<Rightarrow> Item \<Rightarrow> Point3D \<Rightarrow> rat \<times> rat \<times> rat \<Rightarrow> bool" where
  "validate_support sv it pos rot =
     (if pt_z pos = 0 then True
      else
        let support_surface = get_support_surface sv (pt_z pos)
        in if support_surface = [] then False
           else calculate_support_percentage it pos rot support_surface \<ge> 100)"

section \<open>WeightManager\<close>

record WeightManager =
  max_stack_height :: int
  max_weight_per_stack :: rat
  wm_placed_items :: "PlacedItem list"

definition WeightManager_init :: WeightManager where
  "WeightManager_init =
     \<lparr>max_stack_height = 3, max_weight_per_stack = 1000, wm_placed_items = []\<rparr>"

definition wm_add_placed_item :: "WeightManager \<Rightarrow> PlacedItem \<Rightarrow> WeightManager" where
  "wm_add_placed_item wm pl = wm\<lparr>wm_placed_items := wm_placed_items wm @ [pl]\<rparr>"

definition check_stack_height :: "WeightManager \<Rightarrow> Point3D \<Rightarrow> bool" where
  "check_stack_height wm pos =
     (if pt_z pos = 0 then True
      else
        let stack_height =
              foldl (\<lambda>n pl. if pt_x (position pl) = pt_x pos \<and> pt_y (position pl) = pt_y pos
                             then n + 1 else n)
                    (0::int) (wm_placed_items wm)
        in stack_height < max_stack_height wm)"

definition check_weight_limits :: "WeightManager \<Rightarrow> Item \<Rightarrow> Point3D \<Rightarrow> bool" where
  "check_weight_limits wm it pos =
     (let total_weight =
            foldl (\<lambda>t pl. if pt_x (position pl) = pt_x pos \<and> pt_y (position pl) = pt_y pos
                           then t + item_weight (item pl) else t)
                  (item_weight it) (wm_placed_items wm)
      in total_weight \<le> max_weight_per_stack wm)"

definition validate_placement ::
  "WeightManager \<Rightarrow> Item \<Rightarrow> Point3D \<Rightarrow> rat \<times> rat \<times> rat \<Rightarrow> bool" where
  "validate_placement wm it pos rot =
     (if \<not> check_stack_height wm pos then False
      else if \<not> check_weight_limits wm it pos then False
      else True)"

section \<open>BinPackerV3\<close>

record PlacementResult =
  success :: bool
  reason :: string
  placed_item :: "PlacedItem option"

record BinPackerV3 =
  truck_dimensions :: "rat \<times> rat \<times> rat"
  placed_items :: "PlacedItem list"
  unplaced_items :: "Item list"
  point_manager :: PointManager
  collision_detector :: CollisionDetector
  support_validator :: SupportValidator
  weight_manager :: WeightManager

definition BinPackerV3_init :: "rat \<Rightarrow> rat \<Rightarrow> rat \<Rightarrow> BinPackerV3" where
  "BinPackerV3_init truck_length truck_width truck_height =
     \<lparr>truck_dimensions = (truck_length, truck_width, truck_height),
      placed_items = [],
      unplaced_items = [],
      point_manager = add_point PointManager_init \<lparr>pt_x = 0, pt_y = 0, pt_z = 0\<rparr> 0,
      collision_detector = CollisionDetector_init,
      support_validator = SupportValidator_init,
      weight_manager = WeightManager_init\<rparr>"

fun stack_rank :: "Stackability \<Rightarrow> nat" where
  "stack_rank UNSTACKABLE = 0"
| "stack_rank STACKABLE = 1"
| "stack_rank SEMI_STACKABLE = 2"

text \<open>\<open>sorted(items, key=...)\<close> builds a new list and is stable; tuples and strings compare
  lexicographically.\<close>

definition sort_items_by_priority :: "Item list \<Rightarrow> Item list" where
  "sort_items_by_priority items =
     sort_key (\<lambda>it. (stack_rank (stackability it), - volume it, - item_weight it, destination it))
       items"

definition check_geometric_constraints ::
  "BinPackerV3 \<Rightarrow> Item \<Rightarrow> Point3D \<Rightarrow> rat \<times> rat \<times> rat \<Rightarrow> bool" where
  "check_geometric_constraints s it p rot =
     (case truck_dimensions s of (truck_l, truck_w, truck_h) \<Rightarrow>
      case rot of (item_l, item_w, item_h) \<Rightarrow>
        if pt_x p + item_l > truck_l \<or>
           pt_y p + item_w > truck_w \<or>
           pt_z p + item_h > truck_h \<or>
           pt_x p < 0 \<or> pt_y p < 0 \<or> pt_z p < 0
        then False else True)"

text \<open>\<open>_attempt_placement\<close>: the five checks in the order of the source, each one returning
  at once when it fails. Only the collision check writes state (its cache), so the packer is
  returned with the result.\<close>

definition attempt_placement ::
  "BinPackerV3 \<Rightarrow> Item \<Rightarrow> Point3D \<Rightarrow> rat \<times> rat \<times> rat \<Rightarrow> PlacementResult \<times> BinPackerV3" where
  "attempt_placement s it p rot =
     (if stackability it = UNSTACKABLE \<and> pt_z p \<noteq> 0
      then (\<lparr>success = False, reason = ''unstackable_must_be_floor'', placed_item = None\<rparr>, s)
      else if \<not> check_geometric_constraints s it p rot
      then (\<lparr>success = False, reason = ''geometric_violation'', placed_item = None\<rparr>, s)
      else
        case check_collision (collision_detector s) it p rot of (hit, cd1) \<Rightarrow>
          let s1 = s\<lparr>collision_detector := cd1\<rparr>
          in if hit
             then (\<lparr>success = False, reason = ''collision'', placed_item = None\<rparr>, s1)
             else if \<not> validate_support (support_validator s1) it p rot
             then (\<lparr>success = False, reason = ''insufficient_support'', placed_item = None\<rparr>, s1)
             else if \<not> validate_placement (weight_manager s1) it p rot
             then (\<lparr>success = False, reason = ''weight_violation'', placed_item = None\<rparr>, s1)
             else (\<lparr>success = True, reason = [],
                    placed_item = Some \<lparr>item = it, position = p, rotation = rot\<rparr>\<rparr>, s1))"

text \<open>\<open>_try_place_item_at_point\<close>: the inner loop over the rotations of one item and the
  outer loop over the unplaced items, both leaving at the first successful attempt.\<close>

fun try_rotations ::
  "BinPackerV3 \<Rightarrow> Item \<Rightarrow> Point3D \<Rightarrow> (rat \<times> rat \<times> rat) list
     \<Rightarrow> PlacedItem option \<times> BinPackerV3" where
  "try_rotations s it p [] = (None, s)"
| "try_rotations s it p (rot # rots) =
     (case attempt_placement s it p rot of (placement_result, s1) \<Rightarrow>
        if success placement_result then (placed_item placement_result, s1)
        else try_rotations s1 it p rots)"

fun try_items ::
  "BinPackerV3 \<Rightarrow> Point3D \<Rightarrow> Item list \<Rightarrow> PlacedItem option \<times> BinPackerV3" where
  "try_items s p [] = (None, s)"
| "try_items s p (it # its) =
     (case try_rotations s it p (get_rotations it) of
        (Some pl, s1) \<Rightarrow> (Some pl, s1)
      | (None, s1) \<Rightarrow> try_items s1 p its)"

definition try_place_item_at_point ::
  "BinPackerV3 \<Rightarrow> Point3D \<Rightarrow> PlacedItem option \<times> BinPackerV3" where
  "try_place_item_at_point s p = try_items s p (unplaced_items s)"

text \<open>\<open>list.remove(x)\<close> deletes the first element equal to \<open>x\<close> and raises \<open>ValueError\<close>
  when there is none; \<open>Item\<close> is a dataclass, equal when all fields are.\<close>

datatype py_error = ValueError

definition list_remove :: "'a \<Rightarrow> 'a list \<Rightarrow> py_error + 'a list" where
  "list_remove v xs = (if v \<in> set xs then Inr (remove1 v xs) else Inl ValueError)"

definition handle_successful_placement ::
  "BinPackerV3 \<Rightarrow> PlacedItem \<Rightarrow> Point3D \<Rightarrow> py_error + BinPackerV3" where
  "handle_successful_placement s pl p =
     (let s1 = s\<lparr>placed_items := placed_items s @ [pl]\<rparr>
      in case list_remove (item pl) (unplaced_items s1) of
           Inl e \<Rightarrow> Inl e
         | Inr remaining \<Rightarrow>
             let s2 = s1\<lparr>unplaced_items := remaining\<rparr>;
                 s3 = s2\<lparr>point_manager := mark_point_used (point_manager s2) p\<rparr>;
                 s4 = s3\<lparr>collision_detector := cd_add_placed_item (collision_detector s3) pl,
                         support_validator := sv_add_placed_item (support_validator s3) pl,
                         weight_manager := wm_add_placed_item (weight_manager s3) pl\<rparr>;
                 new_points = generate_new_points (point_manager s4) pl
             in Inr (s4\<lparr>point_manager :=
                          foldl (\<lambda>pm (i, new_point). add_point pm new_point (int i + 1))
                            (point_manager s4) (List.enumerate 0 new_points)\<rparr>))"

definition handle_failed_placement :: "BinPackerV3 \<Rightarrow> Point3D \<Rightarrow> BinPackerV3" where
  "handle_failed_placement s p = s\<lparr>point_manager := mark_point_blocked (point_manager s) p\<rparr>"

subsection \<open>The main loop\<close>

text \<open>One pass through the body of the \<open>while\<close> loop of \<open>pack_items\<close>, entered with the
  loop condition true: it raises, leaves the loop by \<open>break\<close>, or ends in the next state.\<close>

datatype iteration = Raised py_error | Broke BinPackerV3 | Next BinPackerV3

definition loop_condition :: "BinPackerV3 \<Rightarrow> bool" where
  "loop_condition s \<longleftrightarrow> available_points (point_manager s) \<noteq> [] \<and> unplaced_items s \<noteq> []"

definition pack_iteration :: "BinPackerV3 \<Rightarrow> iteration" where
  "pack_iteration s =
     (case get_next_point (point_manager s) of (current, pm1) \<Rightarrow>
        let s1 = s\<lparr>point_manager := pm1\<rparr>
        in case current of
             None \<Rightarrow> Broke s1
           | Some current_point \<Rightarrow>
               (case try_place_item_at_point s1 current_point of
                  (Some pl, s2) \<Rightarrow>
                    (case handle_successful_placement s2 pl current_point of
                       Inl e \<Rightarrow> Raised e
                     | Inr s3 \<Rightarrow> Next s3)
                | (None, s2) \<Rightarrow> Next (handle_failed_placement s2 current_point)))"

text \<open>\<open>run_iterations n s\<close> is the state after \<open>n\<close> passes through the loop from \<open>s\<close>, or the
  state in which the loop ended when that takes fewer than \<open>n\<close> passes.\<close>

fun run_iterations :: "nat \<Rightarrow> BinPackerV3 \<Rightarrow> py_error + BinPackerV3" where
  "run_iterations 0 s = Inr s"
| "run_iterations (Suc n) s =
     (if loop_condition s
      then (case pack_iteration s of
              Raised e \<Rightarrow> Inl e
            | Broke s1 \<Rightarrow> Inr s1
            | Next s1 \<Rightarrow> run_iterations n s1)
      else Inr s)"

text \<open>The \<open>while\<close> loop itself. Nothing in its form bounds the number of passes, so it is
  a partial function: \<open>None\<close> stands for a loop that never ends.\<close>

partial_function (option) pack_loop :: "BinPackerV3 \<Rightarrow> (py_error + BinPackerV3) option" where
  [code]:
  "pack_loop s =
     (if loop_condition s
      then (case pack_iteration s of
              Raised e \<Rightarrow> Some (Inl e)
            | Broke s1 \<Rightarrow> Some (Inr s1)
            | Next s1 \<Rightarrow> pack_loop s1)
      else Some (Inr s))"

subsection \<open>The report\<close>

record placed_entry =
  pe_id :: string
  pe_stackability :: string
  pe_position :: "rat \<times> rat \<times> rat"
  pe_rotation :: "rat \<times> rat \<times> rat"
  pe_dimensions :: "rat \<times> rat \<times> rat"
  pe_weight :: rat

record unplaced_entry =
  ue_id :: string
  ue_volume :: rat
  ue_weight :: rat
  ue_stackability :: string

record statistics =
  items_placed :: nat
  items_unplaced :: nat
  total_items :: nat

record packing_result =
  res_success :: bool
  res_placed_items :: "placed_entry list"
  res_unplaced_items :: "unplaced_entry list"
  res_efficiency :: rat
  res_total_weight :: rat
  res_truck_dimensions :: "rat \<times> rat \<times> rat"
  res_statistics :: statistics

definition generate_packing_result :: "BinPackerV3 \<Rightarrow> packing_result" where
  "generate_packing_result s =
     (case truck_dimensions s of (truck_l, truck_w, truck_h) \<Rightarrow>
        let total_volume = truck_l * truck_w * truck_h;
            used_volume = sum_list (map placed_volume (placed_items s));
            efficiency = (if total_volume > 0 then (used_volume / total_volume) * 100 else 0);
            total_weight = sum_list (map (\<lambda>pl. item_weight (item pl)) (placed_items s))
        in \<lparr>res_success = True,
            res_placed_items =
              map (\<lambda>pl. \<lparr>pe_id = item_id (item pl),
                          pe_stackability = stackability_value (stackability (item pl)),
                          pe_position = (pt_x (position pl), pt_y (position pl), pt_z (position pl)),
                          pe_rotation = rotation pl,
                          pe_dimensions = rotation pl,
                          pe_weight = item_weight (item pl)\<rparr>)
                (placed_items s),
            res_unplaced_items =
              map (\<lambda>it. \<lparr>ue_id = item_id it, ue_volume = volume it, ue_weight = item_weight it,
                          ue_stackability = stackability_value (stackability it)\<rparr>)
                (unplaced_items s),
            res_efficiency = py_round efficiency 2,
            res_total_weight = total_weight,
            res_truck_dimensions = truck_dimensions s,
            res_statistics =
              \<lparr>items_placed = length (placed_items s),
               items_unplaced = length (unplaced_items s),
               total_items = length (placed_items s) + length (unplaced_items s)\<rparr>\<rparr>)"

text \<open>\<open>pack_items\<close> on the packer \<open>s\<close>: the report it returns and the packer it leaves.\<close>

definition pack_items ::
  "BinPackerV3 \<Rightarrow> Item list \<Rightarrow> (py_error + packing_result \<times> BinPackerV3) option" where
  "pack_items s items =
     (let sorted_items = sort_items_by_priority items;
          s1 = s\<lparr>unplaced_items := sorted_items\<rparr>
      in case pack_loop s1 of
           None \<Rightarrow> None
         | Some (Inl e) \<Rightarrow> Some (Inl e)
         | Some (Inr s2) \<Rightarrow> Some (Inr (generate_packing_result s2, s2)))"

section \<open>Notions of the specification and example data\<close>


text \<open>A heavy slab on the floor, and a crate to be set over part of it from another origin.\<close>

definition heavy_slab :: PlacedItem where
  "heavy_slab =
     \<lparr>item = \<lparr>item_id = ''slab'', item_length = 2, item_width = 2, item_height = 1,
              item_weight = 900, can_rotate = True, destination = [], is_palletized = False,
              stackability = STACKABLE\<rparr>,
      position = \<lparr>pt_x = 0, pt_y = 0, pt_z = 0\<rparr>,
      rotation = (2, 2, 1)\<rparr>"








definition origin :: Point3D where
  "origin = \<lparr>pt_x = 0, pt_y = 0, pt_z = 0\<rparr>"

definition near_origin :: Point3D where
  "near_origin = \<lparr>pt_x = 4 / 10000, pt_y = 0, pt_z = 0\<rparr>"

text \<open>The scan key as the specification words it: the axes rounded to the three-decimal
  tolerance of the point equality.\<close>

definition scan_key_three_decimals ::
  "PointManager \<Rightarrow> Point3D \<Rightarrow> rat \<times> rat \<times> rat \<times> int" where
  "scan_key_three_decimals pm p =
     (py_round (pt_x p) 3, py_round (pt_z p) 3, py_round (pt_y p) 3,
      (case map_of (point_priorities pm) (point_key p) of None \<Rightarrow> 999 | Some v \<Rightarrow> v))"

definition low_point :: Point3D where
  "low_point = \<lparr>pt_x = 4 / 10000, pt_y = 0, pt_z = 1\<rparr>"

definition high_point :: Point3D where
  "high_point = \<lparr>pt_x = 1 / 10000, pt_y = 0, pt_z = 2\<rparr>"

text \<open>The box of an oriented item set at a point; \<open>bounds\<close> of a placed item is the box at
  its position.\<close>

definition box_at :: "Point3D \<Rightarrow> rat \<times> rat \<times> rat \<Rightarrow> Point3D \<times> Point3D" where
  "box_at p rot =
     (case rot of (l, w, h) \<Rightarrow>
        (p, \<lparr>pt_x = pt_x p + l, pt_y = pt_y p + w, pt_z = pt_z p + h\<rparr>))"

text \<open>The answer of the collision scan, without the cache, and what it means for a cache to
  hold only answers of that scan for the items placed so far.\<close>

definition collides :: "PlacedItem list \<Rightarrow> Point3D \<Rightarrow> rat \<times> rat \<times> rat \<Rightarrow> bool" where
  "collides placed p rot = list_ex (\<lambda>pl. aabb_collision (box_at p rot) (bounds pl)) placed"

definition cache_ok :: "CollisionDetector \<Rightarrow> bool" where
  "cache_ok cd \<longleftrightarrow>
     list_all (\<lambda>(k, hit). case k of (i, x, y, z, rot) \<Rightarrow>
                 hit = collides (cd_placed_items cd) \<lparr>pt_x = x, pt_y = y, pt_z = z\<rparr> rot)
       (collision_cache cd)"

text \<open>The five checks of the specification on one (item, point, orientation), as one
  predicate of the placements made so far, and the pairs tried at a point in the order
  of the backlog, each item with its orientations in their order.\<close>

definition passes_all_checks ::
  "BinPackerV3 \<Rightarrow> Point3D \<Rightarrow> Item \<times> (rat \<times> rat \<times> rat) \<Rightarrow> bool" where
  "passes_all_checks s p c =
     (case c of (it, rot) \<Rightarrow>
        (stackability it = UNSTACKABLE \<and> pt_z p \<noteq> 0) = False \<and>
        check_geometric_constraints s it p rot \<and>
        collides (cd_placed_items (collision_detector s)) p rot = False \<and>
        validate_support (support_validator s) it p rot \<and>
        validate_placement (weight_manager s) it p rot)"


definition with_cache :: "BinPackerV3 \<Rightarrow> (cache_key \<times> bool) list \<Rightarrow> BinPackerV3" where
  "with_cache s c = s\<lparr>collision_detector := (collision_detector s)\<lparr>collision_cache := c\<rparr>\<rparr>"

text \<open>A packing run starts from a packer with the sorted copy of the items as backlog.\<close>

definition start_run :: "BinPackerV3 \<Rightarrow> Item list \<Rightarrow> BinPackerV3" where
  "start_run s items = s\<lparr>unplaced_items := sort_items_by_priority items\<rparr>"

text \<open>The quantity that every pass of the loop lowers: three for each item still in the
  backlog, since a placement opens at most three points, and one for each open point.\<close>

definition loop_measure :: "BinPackerV3 \<Rightarrow> nat" where
  "loop_measure s = length (available_points (point_manager s)) + 3 * length (unplaced_items s)"

text \<open>The point the loop takes next: the head of the open list sorted by scan key.\<close>

definition current_point :: "BinPackerV3 \<Rightarrow> Point3D" where
  "current_point s =
     hd (sort_key (scan_key (point_manager s)) (available_points (point_manager s)))"

text \<open>The packer once \<open>get_next_point\<close> has sorted the open list in place.\<close>

definition sorted_frontier :: "BinPackerV3 \<Rightarrow> BinPackerV3" where
  "sorted_frontier s =
     s\<lparr>point_manager :=
         (point_manager s)\<lparr>available_points :=
            sort_key (scan_key (point_manager s)) (available_points (point_manager s))\<rparr>\<rparr>"

text \<open>The successor points recorded after a placement, with the priorities 1, 2, 3 in the
  order of generation.\<close>

definition add_new_points :: "PointManager \<Rightarrow> Point3D list \<Rightarrow> PointManager" where
  "add_new_points pm new_points =
     foldl (\<lambda>pm (i, new_point). add_point pm new_point (int i + 1)) pm (List.enumerate 0 new_points)"






















section \<open>Weight and stack checks\<close>








section \<open>Support validation\<close>








section \<open>The frontier\<close>

lemma point_eq_iff_key: "point_eq p q \<longleftrightarrow> point_key p = point_key q"
  by (auto simp: point_eq_def point_key_def)

lemma point_in_iff_key: "point_in p ps \<longleftrightarrow> point_key p \<in> point_key ` set ps"
proof -
  have "(\<exists>q \<in> set ps. point_key q = point_key p) \<longleftrightarrow> (\<exists>q \<in> set ps. point_key p = point_key q)"
    by (rule bex_cong) (simp_all add: eq_commute)
  then show ?thesis
    unfolding point_in_def list_ex_iff point_eq_iff_key image_iff .
qed

lemma map_of_update_same: "map_of (AList.update k v al) k = Some v"
  by (simp add: update_conv')

text \<open>
  C7, as the code has it. \<open>add_point\<close> appends the point to the open list exactly when no
  open point and no consumed point has the three-decimal key of the point; the blocked
  list is not consulted. When the point is appended its priority is recorded under the
  key, and otherwise the manager is unchanged. The candidates that
  \<open>generate_new_points\<close> hands to \<open>add_point\<close> are never blocked points.
\<close>

theorem add_point_inserts_iff:
  "(available_points (add_point pm p priority) = available_points pm @ [p] \<longleftrightarrow>
      point_key p \<notin> point_key ` set (available_points pm) \<and>
      point_key p \<notin> point_key ` set (used_points pm)) \<and>
   (available_points (add_point pm p priority) = available_points pm @ [p] \<longrightarrow>
      map_of (point_priorities (add_point pm p priority)) (point_key p) = Some priority) \<and>
   (available_points (add_point pm p priority) \<noteq> available_points pm @ [p] \<longrightarrow>
      add_point pm p priority = pm) \<and>
   (\<forall>c \<in> set (generate_new_points pm pl). point_key c \<notin> point_key ` set (blocked_points pm))"
proof -
  have a: "available_points (add_point pm p priority) = available_points pm @ [p] \<longleftrightarrow>
      point_key p \<notin> point_key ` set (available_points pm) \<and>
      point_key p \<notin> point_key ` set (used_points pm)"
    by (simp add: add_point_def point_in_iff_key)
  have b: "available_points (add_point pm p priority) = available_points pm @ [p] \<longrightarrow>
      map_of (point_priorities (add_point pm p priority)) (point_key p) = Some priority"
    by (simp add: add_point_def map_of_update_same)
  have c: "available_points (add_point pm p priority) \<noteq> available_points pm @ [p] \<longrightarrow>
      add_point pm p priority = pm"
    by (simp add: add_point_def)
  have d: "\<forall>c \<in> set (generate_new_points pm pl).
             point_key c \<notin> point_key ` set (blocked_points pm)"
    by (auto simp: generate_new_points_def Let_def point_in_iff_key split: prod.splits)
  from a b c d show ?thesis by blast
qed

text \<open>
  C7, as the specification words it, fails: the origin, once blocked, is neither open nor
  consumed, and \<open>add_point\<close> puts it back into the open list.
\<close>

theorem add_point_blocked_counterexample:
  "point_in origin (blocked_points (mark_point_blocked (add_point PointManager_init origin 0) origin)) \<and>
   available_points
     (add_point (mark_point_blocked (add_point PointManager_init origin 0) origin) origin 1)
     = [origin]"
  by code_simp

text \<open>The origin enters an empty manager with its priority; a point within the tolerance of
  the origin then leaves the manager as it is; and with the point at x = 2 blocked, the
  slab still has the successor at y = 2, which is not a blocked point.\<close>

theorem add_point_inserts_witness:
  "available_points (add_point PointManager_init origin 0) = [origin] \<and>
   map_of (point_priorities (add_point PointManager_init origin 0)) (point_key origin) = Some 0 \<and>
   add_point (add_point PointManager_init origin 0) near_origin 7
     = add_point PointManager_init origin 0 \<and>
   \<lparr>pt_x = 0, pt_y = 2, pt_z = 0\<rparr> \<in>
     set (generate_new_points (mark_point_blocked PointManager_init \<lparr>pt_x = 2, pt_y = 0, pt_z = 0\<rparr>)
            heavy_slab) \<and>
   point_key \<lparr>pt_x = 0, pt_y = 2, pt_z = 0\<rparr> \<notin>
     point_key ` set (blocked_points
                       (mark_point_blocked PointManager_init \<lparr>pt_x = 2, pt_y = 0, pt_z = 0\<rparr>))"
proof -
  let ?pm0 = "PointManager_init"
  let ?pm1 = "add_point PointManager_init origin 0"
  let ?pmb = "mark_point_blocked PointManager_init \<lparr>pt_x = 2, pt_y = 0, pt_z = 0\<rparr>"
  have fresh: "point_key origin \<notin> point_key ` set (available_points ?pm0) \<and>
               point_key origin \<notin> point_key ` set (used_points ?pm0)"
    by (simp add: PointManager_init_def)
  have ins: "available_points ?pm1 = available_points ?pm0 @ [origin]"
    using add_point_inserts_iff [of ?pm0 origin 0] fresh by blast
  have prio: "map_of (point_priorities ?pm1) (point_key origin) = Some 0"
    using add_point_inserts_iff [of ?pm0 origin 0] ins by blast
  have "point_in near_origin (available_points ?pm1)"
    by code_simp
  then have dup: "point_key near_origin \<in> point_key ` set (available_points ?pm1)"
    by (simp add: point_in_iff_key)
  have same: "add_point ?pm1 near_origin 7 = ?pm1"
    using add_point_inserts_iff [of ?pm1 near_origin 7] dup by blast
  have "generate_new_points ?pmb heavy_slab =
          [\<lparr>pt_x = 0, pt_y = 2, pt_z = 0\<rparr>, \<lparr>pt_x = 0, pt_y = 0, pt_z = 1\<rparr>]"
    by code_simp
  then have gen: "\<lparr>pt_x = 0, pt_y = 2, pt_z = 0\<rparr> \<in> set (generate_new_points ?pmb heavy_slab)"
    by simp
  have nb: "point_key \<lparr>pt_x = 0, pt_y = 2, pt_z = 0\<rparr> \<notin> point_key ` set (blocked_points ?pmb)"
    using add_point_inserts_iff [of ?pmb origin 0 heavy_slab] gen by blast
  from ins prio same gen nb show ?thesis
    by (simp add: PointManager_init_def)
qed

lemma hd_sort_key_least:
  assumes "xs \<noteq> []" and "q \<in> set xs"
  shows "f (hd (sort_key f xs)) \<le> f q"
proof -
  obtain a as where s: "sort_key f xs = a # as"
    using assms(1) by (cases "sort_key f xs") (auto dest: arg_cong [where f = length])
  have "sorted (map f (a # as))"
    using sorted_sort_key [of f xs] by (simp add: s)
  moreover have "q \<in> set (a # as)"
    using assms(2) set_sort [of f xs] by (simp add: s)
  ultimately show ?thesis
    by (auto simp: s)
qed

lemma hd_sort_key_first:
  assumes "xs \<noteq> []"
  shows "hd (sort_key f xs) = hd (filter (\<lambda>q. f q = f (hd (sort_key f xs))) xs)"
proof -
  obtain a as where s: "sort_key f xs = a # as"
    using assms by (cases "sort_key f xs") (auto dest: arg_cong [where f = length])
  have "filter (\<lambda>q. f q = f a) xs = filter (\<lambda>q. f q = f a) (a # as)"
    using sort_key_stable [of f "f a" xs] by (simp add: s)
  then show ?thesis
    by (simp add: s)
qed

text \<open>
  C6, as the code has it. \<open>get_next_point\<close> returns no point exactly when no point is open.
  Otherwise it returns an open point whose scan key is the least among the open points,
  the key being x, then z, then y, each rounded to six decimals, then the priority with 999
  for a point without one; among the open points with that least key it returns the one
  that stands first in the open list. The open list is left sorted by that key.
\<close>

theorem get_next_point_least_scan_key:
  "(fst (get_next_point pm) = None \<longleftrightarrow> available_points pm = []) \<and>
   (available_points pm \<noteq> [] \<longrightarrow>
      (\<exists>p. fst (get_next_point pm) = Some p \<and>
           p \<in> set (available_points pm) \<and>
           (\<forall>q \<in> set (available_points pm). scan_key pm p \<le> scan_key pm q) \<and>
           p = hd (filter (\<lambda>q. scan_key pm q = scan_key pm p) (available_points pm)))) \<and>
   available_points (snd (get_next_point pm)) = sort_key (scan_key pm) (available_points pm)"
proof (cases "available_points pm = []")
  case True
  then show ?thesis by (simp add: get_next_point_def)
next
  case False
  let ?p = "hd (sort_key (scan_key pm) (available_points pm))"
  have "sort_key (scan_key pm) (available_points pm) \<noteq> []"
    using False by (auto dest: arg_cong [where f = length])
  then have "?p \<in> set (sort_key (scan_key pm) (available_points pm))"
    by (rule hd_in_set)
  then have mem: "?p \<in> set (available_points pm)" by simp
  have least: "\<forall>q \<in> set (available_points pm). scan_key pm ?p \<le> scan_key pm q"
    using hd_sort_key_least [OF False] by blast
  have first: "?p = hd (filter (\<lambda>q. scan_key pm q = scan_key pm ?p) (available_points pm))"
    by (rule hd_sort_key_first [OF False])
  have res: "get_next_point pm =
      (Some ?p, pm\<lparr>available_points := sort_key (scan_key pm) (available_points pm)\<rparr>)"
    using False by (simp add: get_next_point_def Let_def)
  show ?thesis
    unfolding res using False mem least first by auto
qed

text \<open>
  C6, as the specification words it, fails: of two open points the one at x = 0.0004,
  z = 1 has the lower key when the axes are rounded to three decimals (both x round to 0),
  but \<open>get_next_point\<close> returns the one at x = 0.0001, z = 2.
\<close>

theorem get_next_point_three_decimals_counterexample:
  "fst (get_next_point (add_point (add_point PointManager_init low_point 0) high_point 0))
     = Some high_point \<and>
   scan_key_three_decimals (add_point (add_point PointManager_init low_point 0) high_point 0)
       low_point
     < scan_key_three_decimals (add_point (add_point PointManager_init low_point 0) high_point 0)
         high_point"
  by code_simp

text \<open>With these two points open, the point at x = 0.0001 is returned, and its key is not
  above the key of the other.\<close>

theorem get_next_point_least_scan_key_witness:
  "available_points (add_point (add_point PointManager_init low_point 0) high_point 0) \<noteq> [] \<and>
   fst (get_next_point (add_point (add_point PointManager_init low_point 0) high_point 0))
     = Some high_point \<and>
   scan_key (add_point (add_point PointManager_init low_point 0) high_point 0) high_point
     \<le> scan_key (add_point (add_point PointManager_init low_point 0) high_point 0) low_point"
proof -
  let ?pm = "add_point (add_point PointManager_init low_point 0) high_point 0"
  have av: "available_points ?pm = [low_point, high_point]"
    by code_simp
  have res: "fst (get_next_point ?pm) = Some high_point"
    by code_simp
  from get_next_point_least_scan_key [of ?pm] av
  obtain p where p: "fst (get_next_point ?pm) = Some p"
    and least: "\<forall>q \<in> set (available_points ?pm). scan_key ?pm p \<le> scan_key ?pm q"
    by auto
  from p res have "p = high_point" by simp
  with least av have "scan_key ?pm high_point \<le> scan_key ?pm low_point" by simp
  with av res show ?thesis by simp
qed

section \<open>One attempt, one point, one pass of the loop\<close>


lemma bounds_eq_box_at: "bounds pl = box_at (position pl) (rotation pl)"
  by (simp add: bounds_def box_at_def)

lemma with_cache_simps [simp]:
  "truck_dimensions (with_cache s c) = truck_dimensions s"
  "placed_items (with_cache s c) = placed_items s"
  "unplaced_items (with_cache s c) = unplaced_items s"
  "point_manager (with_cache s c) = point_manager s"
  "support_validator (with_cache s c) = support_validator s"
  "weight_manager (with_cache s c) = weight_manager s"
  "cd_placed_items (collision_detector (with_cache s c)) = cd_placed_items (collision_detector s)"
  "collision_cache (collision_detector (with_cache s c)) = c"
  "with_cache (with_cache s c) c' = with_cache s c'"
  by (simp_all add: with_cache_def)


lemma passes_with_cache [simp]: "passes_all_checks (with_cache s c) p = passes_all_checks s p"
  by (simp add: fun_eq_iff passes_all_checks_def check_geometric_constraints_def split: prod.splits)




lemma check_collision_cache_only:
  "snd (check_collision cd it p rot) = cd\<lparr>collision_cache := collision_cache (snd (check_collision cd it p rot))\<rparr>"
  by (simp add: check_collision_def Let_def split: option.splits)

lemma attempt_placement_frame:
  "snd (attempt_placement s it p rot)
     = with_cache s (collision_cache (collision_detector (snd (attempt_placement s it p rot))))"
proof -
  have "s\<lparr>collision_detector := snd (check_collision (collision_detector s) it p rot)\<rparr> =
        with_cache s (collision_cache (snd (check_collision (collision_detector s) it p rot)))"
    unfolding with_cache_def
    using check_collision_cache_only [of "collision_detector s" it p rot] by simp
  then show ?thesis
    by (auto simp: attempt_placement_def Let_def split: prod.splits)
qed






lemma try_rotations_frame: "\<exists>c. snd (try_rotations s it p rots) = with_cache s c"
proof (induction rots arbitrary: s)
  case Nil
  show ?case by (auto intro: exI [where x = "collision_cache (collision_detector s)"])
next
  case (Cons rot rots)
  obtain r s1 where a: "attempt_placement s it p rot = (r, s1)"
    by (cases "attempt_placement s it p rot")
  from attempt_placement_frame [of s it p rot] a
  obtain c1 where s1: "s1 = with_cache s c1" by auto
  from Cons.IH [of s1] s1 show ?case
    by (auto simp: a)
qed

lemma try_rotations_item:
  "fst (try_rotations s it p rots) = Some pl \<Longrightarrow> item pl = it \<and> position pl = p"
proof (induction rots arbitrary: s)
  case Nil
  then show ?case by simp
next
  case (Cons rot rots)
  obtain r s1 where a: "attempt_placement s it p rot = (r, s1)"
    by (cases "attempt_placement s it p rot")
  have "success r \<Longrightarrow> placed_item r = Some \<lparr>item = it, position = p, rotation = rot\<rparr>"
    using a by (auto simp: attempt_placement_def Let_def split: if_splits prod.splits)
  with Cons show ?case
    by (auto simp: a split: if_splits)
qed

lemma try_items_frame: "\<exists>c. snd (try_items s p its) = with_cache s c"
proof (induction its arbitrary: s)
  case Nil
  show ?case by (auto intro: exI [where x = "collision_cache (collision_detector s)"])
next
  case (Cons it its)
  obtain r s1 where t: "try_rotations s it p (get_rotations it) = (r, s1)"
    by (cases "try_rotations s it p (get_rotations it)")
  from try_rotations_frame [of s it p "get_rotations it"] t
  obtain c1 where s1: "s1 = with_cache s c1" by auto
  from Cons.IH [of s1] s1 show ?case
    by (cases r) (auto simp: t)
qed

lemma try_items_item:
  "fst (try_items s p its) = Some pl \<Longrightarrow> item pl \<in> set its \<and> position pl = p"
proof (induction its arbitrary: s)
  case Nil
  then show ?case by simp
next
  case (Cons it its)
  obtain r s1 where t: "try_rotations s it p (get_rotations it) = (r, s1)"
    by (cases "try_rotations s it p (get_rotations it)")
  show ?case
  proof (cases r)
    case None
    with Cons t show ?thesis by auto
  next
    case (Some a)
    with Cons.prems t have "a = pl" by simp
    with try_rotations_item [of s it p "get_rotations it" a] t Some show ?thesis by simp
  qed
qed

subsection \<open>The frontier under a placement\<close>

lemma point_in_refl_hd: "point_in p (p # ps)"
  by (simp add: point_in_def point_eq_def)

lemma length_point_remove:
  "point_in p ps \<Longrightarrow> Suc (length (point_remove p ps)) = length ps"
  by (induction ps) (auto simp: point_in_def)

lemma point_remove_hd: "point_remove p (p # ps) = ps"
  by (simp add: point_eq_def)



lemma length_add_points:
  "length (available_points (foldl (\<lambda>pm (i, q). add_point pm q (int i + 1)) pm (List.enumerate n nps)))
     \<le> length (available_points pm) + length nps"
proof (induction nps arbitrary: pm n)
  case Nil
  show ?case by simp
next
  case (Cons q qs)
  have "length (available_points (add_point pm q (int n + 1))) \<le> Suc (length (available_points pm))"
    by (simp add: add_point_def)
  with Cons [of "add_point pm q (int n + 1)" "Suc n"] show ?case
    by simp
qed

lemma length_generate_new_points: "length (generate_new_points pm pl) \<le> 3"
proof -
  have "\<And>P xs. length (filter P xs) \<le> length xs" by simp
  then show ?thesis
    unfolding generate_new_points_def Let_def
    by (auto split: prod.splits intro!: order_trans [OF length_filter_le])
qed



subsection \<open>One pass of the loop\<close>

lemma point_eq_refl [simp]: "point_eq p p"
  by (simp add: point_eq_def)

lemma mark_point_used_hd:
  "available_points pm = p # ps \<Longrightarrow>
   mark_point_used pm p = pm\<lparr>available_points := ps, used_points := used_points pm @ [p]\<rparr>"
  by (simp add: mark_point_used_def Let_def point_in_refl_hd point_remove_hd)

lemma mark_point_blocked_hd:
  "available_points pm = p # ps \<Longrightarrow>
   mark_point_blocked pm p = pm\<lparr>available_points := ps, blocked_points := blocked_points pm @ [p]\<rparr>"
  by (simp add: mark_point_blocked_def Let_def point_in_refl_hd point_remove_hd)

lemma sorted_frontier_simps [simp]:
  "truck_dimensions (sorted_frontier s) = truck_dimensions s"
  "placed_items (sorted_frontier s) = placed_items s"
  "unplaced_items (sorted_frontier s) = unplaced_items s"
  "collision_detector (sorted_frontier s) = collision_detector s"
  "support_validator (sorted_frontier s) = support_validator s"
  "weight_manager (sorted_frontier s) = weight_manager s"
  "used_points (point_manager (sorted_frontier s)) = used_points (point_manager s)"
  "blocked_points (point_manager (sorted_frontier s)) = blocked_points (point_manager s)"
  "point_priorities (point_manager (sorted_frontier s)) = point_priorities (point_manager s)"
  "available_points (point_manager (sorted_frontier s))
     = sort_key (scan_key (point_manager s)) (available_points (point_manager s))"
  by (simp_all add: sorted_frontier_def)

lemma passes_sorted_frontier [simp]:
  "passes_all_checks (sorted_frontier s) p = passes_all_checks s p"
  by (simp add: fun_eq_iff passes_all_checks_def check_geometric_constraints_def split: prod.splits)

lemma sorted_available_hd:
  assumes "available_points (point_manager s) \<noteq> []"
  shows "available_points (point_manager (sorted_frontier s))
           = current_point s # tl (available_points (point_manager (sorted_frontier s)))"
proof -
  have "sort_key (scan_key (point_manager s)) (available_points (point_manager s)) \<noteq> []"
    using assms by (auto dest: arg_cong [where f = length])
  then show ?thesis
    by (simp add: current_point_def)
qed

lemma handle_successful_placement_fields:
  assumes "item pl \<in> set (unplaced_items t)"
  shows "handle_successful_placement t pl p =
     Inr \<lparr>truck_dimensions = truck_dimensions t,
          placed_items = placed_items t @ [pl],
          unplaced_items = remove1 (item pl) (unplaced_items t),
          point_manager =
            add_new_points (mark_point_used (point_manager t) p)
              (generate_new_points (mark_point_used (point_manager t) p) pl),
          collision_detector =
            \<lparr>cd_placed_items = cd_placed_items (collision_detector t) @ [pl], collision_cache = []\<rparr>,
          support_validator = \<lparr>sv_placed_items = sv_placed_items (support_validator t) @ [pl]\<rparr>,
          weight_manager =
            \<lparr>max_stack_height = max_stack_height (weight_manager t),
             max_weight_per_stack = max_weight_per_stack (weight_manager t),
             wm_placed_items = wm_placed_items (weight_manager t) @ [pl]\<rparr>\<rparr>"
  using assms
  by (simp add: handle_successful_placement_def Let_def list_remove_def add_new_points_def
      cd_add_placed_item_def sv_add_placed_item_def wm_add_placed_item_def)

lemma get_next_point_sorted:
  assumes "available_points (point_manager s) \<noteq> []"
  shows "get_next_point (point_manager s)
           = (Some (current_point s), point_manager (sorted_frontier s))"
  using assms by (simp add: get_next_point_def Let_def current_point_def sorted_frontier_def)

lemma pack_iteration_unfold:
  assumes "loop_condition s"
  shows "pack_iteration s =
     (case try_items (sorted_frontier s) (current_point s) (unplaced_items s) of
        (Some pl, s2) \<Rightarrow>
          (case handle_successful_placement s2 pl (current_point s) of
             Inl e \<Rightarrow> Raised e
           | Inr s3 \<Rightarrow> Next s3)
      | (None, s2) \<Rightarrow> Next (handle_failed_placement s2 (current_point s)))"
proof -
  have av: "available_points (point_manager s) \<noteq> []"
    using assms by (simp add: loop_condition_def)
  have sf: "s\<lparr>point_manager := point_manager (sorted_frontier s)\<rparr> = sorted_frontier s"
    by (simp add: sorted_frontier_def)
  have "pack_iteration s =
     (case try_items (s\<lparr>point_manager := point_manager (sorted_frontier s)\<rparr>) (current_point s)
             (unplaced_items s) of
        (Some pl, s2) \<Rightarrow>
          (case handle_successful_placement s2 pl (current_point s) of
             Inl e \<Rightarrow> Raised e
           | Inr s3 \<Rightarrow> Next s3)
      | (None, s2) \<Rightarrow> Next (handle_failed_placement s2 (current_point s)))"
    by (simp add: pack_iteration_def get_next_point_sorted [OF av] Let_def
        try_place_item_at_point_def)
  then show ?thesis
    unfolding sf .
qed

text \<open>A pass of the loop either blocks the current point or commits a placement; it never
  raises and never leaves by \<open>break\<close>.\<close>

lemma pack_iteration_outcome:
  assumes "loop_condition s"
  shows "\<exists>c. snd (try_items (sorted_frontier s) (current_point s) (unplaced_items s))
               = with_cache (sorted_frontier s) c \<and>
          (case fst (try_items (sorted_frontier s) (current_point s) (unplaced_items s)) of
             None \<Rightarrow>
               pack_iteration s
                 = Next (handle_failed_placement (with_cache (sorted_frontier s) c) (current_point s))
           | Some pl \<Rightarrow>
               item pl \<in> set (unplaced_items s) \<and> position pl = current_point s \<and>
               (\<exists>t. handle_successful_placement (with_cache (sorted_frontier s) c) pl (current_point s)
                       = Inr t \<and>
                    pack_iteration s = Next t))"
proof -
  let ?t = "try_items (sorted_frontier s) (current_point s) (unplaced_items s)"
  from try_items_frame [of "sorted_frontier s" "current_point s" "unplaced_items s"]
  obtain c where c: "snd ?t = with_cache (sorted_frontier s) c" ..
  show ?thesis
  proof (cases "fst ?t")
    case None
    then have "?t = (None, with_cache (sorted_frontier s) c)"
      using c by (cases ?t) simp
    then have "pack_iteration s
                 = Next (handle_failed_placement (with_cache (sorted_frontier s) c) (current_point s))"
      by (simp add: pack_iteration_unfold [OF assms])
    with c None show ?thesis
      by (intro exI [of _ c]) simp
  next
    case (Some pl)
    then have t: "?t = (Some pl, with_cache (sorted_frontier s) c)"
      using c by (cases ?t) simp
    from try_items_item [OF Some]
    have it: "item pl \<in> set (unplaced_items s)" and pos: "position pl = current_point s"
      by simp_all
    from it have "item pl \<in> set (unplaced_items (with_cache (sorted_frontier s) c))"
      by simp
    from handle_successful_placement_fields [OF this, of "current_point s"]
    obtain t' where h: "handle_successful_placement (with_cache (sorted_frontier s) c) pl
                          (current_point s) = Inr t'"
      by blast
    then have "pack_iteration s = Next t'"
      by (simp add: pack_iteration_unfold [OF assms] t)
    with h it pos c Some show ?thesis
      by (intro exI [of _ c]) simp
  qed
qed

lemma handle_failed_placement_fields:
  assumes "available_points (point_manager t) = p # ps"
  shows "handle_failed_placement t p =
           t\<lparr>point_manager := (point_manager t)\<lparr>available_points := ps,
                blocked_points := blocked_points (point_manager t) @ [p]\<rparr>\<rparr>"
  by (simp add: handle_failed_placement_def mark_point_blocked_hd [OF assms])

lemma pack_iteration_decreases:
  assumes "loop_condition s"
  shows "\<exists>t. pack_iteration s = Next t \<and> loop_measure t < loop_measure s"
proof -
  let ?sf = "sorted_frontier s" and ?cp = "current_point s"
  have av: "available_points (point_manager s) \<noteq> []"
    using assms by (simp add: loop_condition_def)
  have len: "length (available_points (point_manager ?sf)) = length (available_points (point_manager s))"
    by simp
  from pack_iteration_outcome [OF assms] obtain c where
    out: "case fst (try_items ?sf ?cp (unplaced_items s)) of
             None \<Rightarrow> pack_iteration s = Next (handle_failed_placement (with_cache ?sf c) ?cp)
           | Some pl \<Rightarrow>
               item pl \<in> set (unplaced_items s) \<and> position pl = ?cp \<and>
               (\<exists>t. handle_successful_placement (with_cache ?sf c) pl ?cp = Inr t \<and>
                    pack_iteration s = Next t)"
    by blast
  have hd0: "available_points (point_manager ?sf) = ?cp # tl (available_points (point_manager ?sf))"
    by (rule sorted_available_hd [OF av])
  then have hd: "available_points (point_manager (with_cache ?sf c))
              = ?cp # tl (available_points (point_manager ?sf))"
    by simp
  have tl_len: "Suc (length (tl (available_points (point_manager ?sf))))
                  = length (available_points (point_manager s))"
    using sorted_available_hd [OF av] len by (metis length_Cons)
  show ?thesis
  proof (cases "fst (try_items ?sf ?cp (unplaced_items s))")
    case None
    with out have "pack_iteration s = Next (handle_failed_placement (with_cache ?sf c) ?cp)"
      by simp
    moreover have "loop_measure (handle_failed_placement (with_cache ?sf c) ?cp) < loop_measure s"
      using tl_len by (simp add: handle_failed_placement_fields [OF hd] loop_measure_def)
    ultimately show ?thesis by blast
  next
    case (Some pl)
    with out obtain t where it: "item pl \<in> set (unplaced_items s)"
      and h: "handle_successful_placement (with_cache ?sf c) pl ?cp = Inr t"
      and n: "pack_iteration s = Next t"
      by auto
    from it have it': "item pl \<in> set (unplaced_items (with_cache ?sf c))" by simp
    let ?pm = "mark_point_used (point_manager ?sf) ?cp"
    from handle_successful_placement_fields [OF it', of ?cp] h
    have un: "unplaced_items t = remove1 (item pl) (unplaced_items s)"
      and pm: "point_manager t = add_new_points ?pm (generate_new_points ?pm pl)"
      by auto
    have "length (available_points ?pm) = length (tl (available_points (point_manager ?sf)))"
      by (simp add: mark_point_used_hd [OF hd0])
    moreover have "length (available_points (point_manager t))
            \<le> length (available_points ?pm) + length (generate_new_points ?pm pl)"
      unfolding pm add_new_points_def by (rule length_add_points)
    moreover note length_generate_new_points [of ?pm pl]
    ultimately have a: "length (available_points (point_manager t)) + 1
            \<le> length (available_points (point_manager s)) + 3"
      using tl_len by linarith
    have u: "Suc (length (unplaced_items t)) = length (unplaced_items s)"
      using it by (simp add: un length_remove1) (metis Suc_pred length_pos_if_in_set)
    have "loop_measure t < loop_measure s"
      using a u by (simp add: loop_measure_def)
    with n show ?thesis by blast
  qed
qed


text \<open>The loop ends: within \<open>loop_measure\<close> passes it reaches a state where its condition is
  false, and that state is what \<open>pack_loop\<close> returns.\<close>

lemma pack_loop_terminates:
  "\<exists>n t. n \<le> loop_measure s \<and> run_iterations n s = Inr t \<and>
         pack_loop s = Some (Inr t) \<and> loop_condition t = False"
proof (induction s rule: measure_induct_rule [where f = loop_measure])
  case (less s)
  show ?case
  proof (cases "loop_condition s")
    case False
    then have "run_iterations 0 s = Inr s \<and> pack_loop s = Some (Inr s)"
      by (subst pack_loop.simps) simp
    with False show ?thesis by blast
  next
    case True
    from pack_iteration_decreases [OF True] obtain t1
      where t1: "pack_iteration s = Next t1" and m: "loop_measure t1 < loop_measure s"
      by blast
    from less.IH [OF m] obtain n t where n: "n \<le> loop_measure t1"
      and r: "run_iterations n t1 = Inr t" and p: "pack_loop t1 = Some (Inr t)"
      and e: "loop_condition t = False"
      by blast
    have "run_iterations (Suc n) s = Inr t"
      using True t1 r by simp
    moreover have "pack_loop s = Some (Inr t)"
      using True t1 p by (subst pack_loop.simps) simp
    moreover have "Suc n \<le> loop_measure s"
      using n m by simp
    ultimately show ?thesis
      using e by blast
  qed
qed

lemma run_iterations_ended:
  "loop_condition s = False \<Longrightarrow> run_iterations n s = Inr s"
  by (cases n) simp_all

lemma run_iterations_add:
  "run_iterations n s = Inr t \<Longrightarrow> run_iterations (n + m) s = run_iterations m t"
proof (induction n arbitrary: s)
  case 0
  then show ?case by simp
next
  case (Suc n)
  show ?case
  proof (cases "loop_condition s")
    case True
    from pack_iteration_decreases [OF True] obtain t1 where t1: "pack_iteration s = Next t1"
      by blast
    with Suc True show ?thesis by simp
  next
    case False
    with Suc.prems have "t = s" by simp
    with False show ?thesis by (simp add: run_iterations_ended)
  qed
qed


section \<open>Termination\<close>

text \<open>
  C5. For every packer, so for every container, and every list of items, the loop of
  \<open>pack_items\<close> ends: after at most one pass for each open point and three for each item
  it reaches a state in which the loop condition is false, without raising, and
  \<open>pack_items\<close> returns the report of that state, whose \<open>success\<close> is true. A packer fresh
  from \<open>BinPackerV3_init\<close> has one open point.
\<close>

theorem pack_items_terminates_with_report:
  "\<exists>n t. n \<le> length (available_points (point_manager s)) + 3 * length items \<and>
         run_iterations n (start_run s items) = Inr t \<and>
         loop_condition t = False \<and>
         pack_items s items = Some (Inr (generate_packing_result t, t)) \<and>
         res_success (generate_packing_result t) = True \<and>
         length (available_points (point_manager (BinPackerV3_init truck_length truck_width truck_height))) = 1"
proof -
  from pack_loop_terminates [of "start_run s items"] obtain n t
    where n: "n \<le> loop_measure (start_run s items)"
      and r: "run_iterations n (start_run s items) = Inr t"
      and p: "pack_loop (start_run s items) = Some (Inr t)"
      and e: "loop_condition t = False"
    by blast
  have "loop_measure (start_run s items)
          = length (available_points (point_manager s)) + 3 * length items"
    by (simp add: loop_measure_def start_run_def sort_items_by_priority_def)
  with n have b: "n \<le> length (available_points (point_manager s)) + 3 * length items"
    by simp
  have pi: "pack_items s items = Some (Inr (generate_packing_result t, t))"
    using p by (simp add: pack_items_def start_run_def Let_def)
  have su: "res_success (generate_packing_result t) = True"
    by (simp add: generate_packing_result_def Let_def split: prod.splits)
  have one: "length (available_points (point_manager (BinPackerV3_init truck_length truck_width truck_height))) = 1"
    by (simp add: BinPackerV3_init_def add_point_def PointManager_init_def point_in_def)
  from b r e pi su one show ?thesis by blast
qed



section \<open>Invariants of a packing run\<close>

lemma cache_ok_empty [simp]: "cache_ok \<lparr>cd_placed_items = pls, collision_cache = []\<rparr>"
  by (simp add: cache_ok_def)








lemma fresh_packer_placed [simp]:
  "placed_items (start_run (BinPackerV3_init l w h) items) = []"
  "cd_placed_items (collision_detector (start_run (BinPackerV3_init l w h) items)) = []"
  "truck_dimensions (start_run (BinPackerV3_init l w h) items) = (l, w, h)"
  by (simp_all add: start_run_def BinPackerV3_init_def CollisionDetector_init_def)






section \<open>The placement attempt and its commit\<close>







section \<open>Determinism and the state that survives a call\<close>

lemma current_point_with_cache [simp]: "current_point (with_cache s c) = current_point s"
  by (simp add: current_point_def)

lemma loop_condition_with_cache [simp]: "loop_condition (with_cache s c) = loop_condition s"
  by (simp add: loop_condition_def)

lemma generate_packing_result_with_cache [simp]:
  "generate_packing_result (with_cache s c) = generate_packing_result s"
  by (simp add: generate_packing_result_def)







section \<open>The caller's list\<close>



end
